theory Spec2Isabelle
  imports Main "HOL-Library.Multiset"
begin

section \<open>The SQLite store of \<open>sq3_handler.py\<close>\<close>

text \<open>
  \<open>ChatDatabase\<close> keeps two tables. A value of \<open>datetime.now()\<close> is a number of
  microseconds; the adapter of \<open>sqlite3\<close> stores it as ISO text, whose order is the
  order of the instants, so the model compares the numbers. Every operation reads the
  clock once and gets that reading as the argument \<open>now\<close>.
\<close>

type_synonym timestamp = nat

record session_row =
  session_id :: string
  created_at :: timestamp
  updated_at :: timestamp

record message_row =
  m_id :: nat
  m_session_id :: string
  m_role :: string
  m_content :: string
  m_timestamp :: timestamp

text \<open>
  The file on disk: the rows of \<open>sessions\<close>, the rows of \<open>messages\<close> in rowid order
  (the order of a scan of the table or of its index on \<open>session_id\<close>), and the counter
  that \<open>AUTOINCREMENT\<close> keeps in \<open>sqlite_sequence\<close>.
\<close>

record database =
  sessions :: "session_row list"
  messages :: "message_row list"
  sqlite_sequence :: nat

text \<open>
  \<open>init_db\<close> creates the two tables and the index if they do not exist; on a new file
  both tables are empty.
\<close>

definition init_db :: database where
  "init_db = \<lparr>sessions = [], messages = [], sqlite_sequence = 0\<rparr>"

text \<open>
  A connection works on a copy of the file inside a transaction (\<open>txn\<close>); \<open>commit\<close>
  writes the copy back, \<open>rollback\<close> drops it, and \<open>close\<close> leaves on disk what was
  committed. \<open>sqlite3.connect\<close> leaves \<open>PRAGMA foreign_keys\<close> at SQLite's default,
  off, and \<open>_get_connection\<close> sets only \<open>row_factory\<close>: the \<open>FOREIGN KEY\<close> clause
  of the schema is parsed and not enforced.
\<close>

record connection =
  disk :: database
  txn :: database
  foreign_keys :: bool

definition get_connection :: "database \<Rightarrow> connection" where
  "get_connection db = \<lparr>disk = db, txn = db, foreign_keys = False\<rparr>"

definition commit_txn :: "connection \<Rightarrow> connection" where
  "commit_txn c = c\<lparr>disk := txn c\<rparr>"

definition rollback :: "connection \<Rightarrow> connection" where
  "rollback c = c\<lparr>txn := disk c\<rparr>"

definition close :: "connection \<Rightarrow> database" where
  "close c = disk c"

text \<open>
  The exceptions of \<open>sqlite3\<close> that the handlers meet: a violated constraint, and a
  failure of the medium (disk full, database locked, I/O error).
\<close>

datatype error = IntegrityError | OperationalError

text \<open>
  A statement runs on the connection and returns a value or raises; a raising statement
  leaves the transaction as it was before it. \<open>then_do\<close> is Python's sequencing: the
  first exception ends the \<open>try\<close> block.
\<close>

type_synonym 'a sql = "connection \<Rightarrow> (error + 'a) \<times> connection"

definition then_do :: "'a sql \<Rightarrow> ('a \<Rightarrow> 'b sql) \<Rightarrow> 'b sql" where
  "then_do m f c = (case m c of (Inl e, c') \<Rightarrow> (Inl e, c') | (Inr a, c') \<Rightarrow> f a c')"

definition return_value :: "'a \<Rightarrow> 'a sql" where
  "return_value a c = (Inr a, c)"

text \<open>
  The medium may fail at one call of an operation: \<open>fault = Some k\<close> makes the \<open>k\<close>-th
  call on the connection (counted from 0, \<open>commit\<close> included) raise
  \<open>OperationalError\<close>; \<open>None\<close> is a healthy medium.
\<close>

definition execute :: "nat option \<Rightarrow> nat \<Rightarrow> 'a sql \<Rightarrow> 'a sql" where
  "execute fault k stmt c = (if fault = Some k then (Inl OperationalError, c) else stmt c)"

definition commit :: "nat option \<Rightarrow> nat \<Rightarrow> unit sql" where
  "commit fault k = execute fault k (\<lambda>c. (Inr (), commit_txn c))"

text \<open>\<open>INSERT INTO sessions (session_id, created_at, updated_at) VALUES (?, ?, ?)\<close>;
  \<open>session_id\<close> is the primary key.\<close>

definition insert_session :: "string \<Rightarrow> timestamp \<Rightarrow> timestamp \<Rightarrow> unit sql" where
  "insert_session sid c_at u_at c =
     (if sid \<in> set (map session_id (sessions (txn c))) then (Inl IntegrityError, c)
      else (Inr (), c\<lparr>txn := (txn c)\<lparr>sessions := sessions (txn c) @
              [\<lparr>session_id = sid, created_at = c_at, updated_at = u_at\<rparr>]\<rparr>\<rparr>))"

text \<open>
  The rowid of a new row of an \<open>AUTOINCREMENT\<close> table is one more than the larger of
  the counter in \<open>sqlite_sequence\<close> and the largest rowid in the table; a rowid is a
  signed 64-bit integer, and once the largest one has been used an insertion fails with
  \<open>SQLITE_FULL\<close>, which \<open>sqlite3\<close> raises as \<open>OperationalError\<close>.
\<close>

definition max_rowid :: nat where
  "max_rowid = 9223372036854775807"

definition last_rowid :: "database \<Rightarrow> nat" where
  "last_rowid d = fold max (map m_id (messages d)) (sqlite_sequence d)"

text \<open>\<open>INSERT INTO messages (session_id, role, content, timestamp) VALUES (?, ?, ?, ?)\<close>;
  the foreign key is checked only on a connection that enforces foreign keys.\<close>

definition insert_message :: "string \<Rightarrow> string \<Rightarrow> string \<Rightarrow> timestamp \<Rightarrow> unit sql" where
  "insert_message sid r ct ts c =
     (if max_rowid \<le> last_rowid (txn c) then (Inl OperationalError, c)
      else if foreign_keys c \<and> sid \<notin> set (map session_id (sessions (txn c)))
      then (Inl IntegrityError, c)
      else (Inr (), c\<lparr>txn := (txn c)\<lparr>
              messages := messages (txn c) @
                [\<lparr>m_id = Suc (last_rowid (txn c)), m_session_id = sid, m_role = r,
                  m_content = ct, m_timestamp = ts\<rparr>],
              sqlite_sequence := Suc (last_rowid (txn c))\<rparr>\<rparr>))"

text \<open>\<open>UPDATE sessions SET updated_at = ? WHERE session_id = ?\<close>\<close>

definition update_updated_at :: "timestamp \<Rightarrow> string \<Rightarrow> unit sql" where
  "update_updated_at ts sid c =
     (Inr (), c\<lparr>txn := (txn c)\<lparr>sessions :=
        map (\<lambda>s. if session_id s = sid then s\<lparr>updated_at := ts\<rparr> else s) (sessions (txn c))\<rparr>\<rparr>)"

text \<open>\<open>DELETE FROM messages WHERE session_id = ?\<close>\<close>

definition delete_messages :: "string \<Rightarrow> unit sql" where
  "delete_messages sid c =
     (Inr (), c\<lparr>txn := (txn c)\<lparr>messages :=
        filter (\<lambda>m. m_session_id m \<noteq> sid) (messages (txn c))\<rparr>\<rparr>)"

text \<open>\<open>DELETE FROM sessions WHERE session_id = ?\<close>, returning \<open>cursor.rowcount\<close>; with
  foreign keys enforced the deletion cascades to the messages of the session.\<close>

definition delete_sessions :: "string \<Rightarrow> nat sql" where
  "delete_sessions sid c =
     (Inr (length (filter (\<lambda>s. session_id s = sid) (sessions (txn c)))),
      c\<lparr>txn := (txn c)\<lparr>
        sessions := filter (\<lambda>s. session_id s \<noteq> sid) (sessions (txn c)),
        messages := (if foreign_keys c
                     then filter (\<lambda>m. m_session_id m \<noteq> sid) (messages (txn c))
                     else messages (txn c))\<rparr>\<rparr>)"

text \<open>
  The frame of every writing method:
  \<^verbatim>\<open>
  conn = self._get_connection()
  try: ...; conn.commit(); return ...
  except Exception as e: conn.rollback(); raise e
  finally: conn.close()
  \<close>
\<close>

definition with_connection :: "'a sql \<Rightarrow> database \<Rightarrow> (error + 'a) \<times> database" where
  "with_connection body db =
     (case body (get_connection db) of
        (Inl e, c) \<Rightarrow> (Inl e, close (rollback c))
      | (Inr a, c) \<Rightarrow> (Inr a, close c))"

subsection \<open>The operations of \<open>ChatDatabase\<close>\<close>

definition create_session ::
  "nat option \<Rightarrow> timestamp \<Rightarrow> string \<Rightarrow> database \<Rightarrow> (error + session_row) \<times> database" where
  "create_session fault now sid =
     with_connection
       (then_do (execute fault 0 (insert_session sid now now)) (\<lambda>_.
        then_do (commit fault 1) (\<lambda>_.
        return_value \<lparr>session_id = sid, created_at = now, updated_at = now\<rparr>)))"

definition session_exists :: "database \<Rightarrow> string \<Rightarrow> bool" where
  "session_exists db sid = (sid \<in> set (map session_id (sessions db)))"

text \<open>The dictionary that \<open>add_message\<close> returns.\<close>

record added_message =
  am_session_id :: string
  am_role :: string
  am_content :: string
  am_timestamp :: timestamp

definition add_message ::
  "nat option \<Rightarrow> timestamp \<Rightarrow> string \<Rightarrow> string \<Rightarrow> string \<Rightarrow> database
     \<Rightarrow> (error + added_message) \<times> database" where
  "add_message fault now sid r ct =
     with_connection
       (then_do (execute fault 0 (insert_message sid r ct now)) (\<lambda>_.
        then_do (execute fault 1 (update_updated_at now sid)) (\<lambda>_.
        then_do (commit fault 2) (\<lambda>_.
        return_value
          \<lparr>am_session_id = sid, am_role = r, am_content = ct, am_timestamp = now\<rparr>))))"

definition delete_session ::
  "nat option \<Rightarrow> string \<Rightarrow> database \<Rightarrow> (error + bool) \<times> database" where
  "delete_session fault sid =
     with_connection
       (then_do (execute fault 0 (delete_messages sid)) (\<lambda>_.
        then_do (execute fault 1 (delete_sessions sid)) (\<lambda>rowcount.
        then_do (commit fault 2) (\<lambda>_.
        return_value (rowcount > 0)))))"

text \<open>\<open>get_session\<close>: \<open>fetchone\<close> of the rows with the id, or \<open>None\<close>.\<close>

definition get_session :: "database \<Rightarrow> string \<Rightarrow> session_row option" where
  "get_session db sid =
     (case filter (\<lambda>s. session_id s = sid) (sessions db) of [] \<Rightarrow> None | s # _ \<Rightarrow> Some s)"


text \<open>The rows that \<open>get_messages\<close> returns, and the message dictionaries of
  \<open>app.py\<close>: the keys \<open>role\<close>, \<open>content\<close>, \<open>timestamp\<close>.\<close>

record message_dict =
  role :: string
  content :: string
  timestamp :: timestamp

text \<open>
  \<open>ORDER BY\<close> fixes the order of rows with different keys only: SQL leaves the order
  of rows with equal keys to the engine. What SQL promises of a query with \<open>ORDER BY\<close>
  is that its result is an arrangement of the selected rows that is sorted by the key.
\<close>

definition order_by :: "('a \<Rightarrow> 'a \<Rightarrow> bool) \<Rightarrow> 'a list \<Rightarrow> 'a list \<Rightarrow> bool" where
  "order_by le rows res = (mset res = mset rows \<and> sorted_wrt le res)"

text \<open>\<open>SELECT role, content, timestamp FROM messages WHERE session_id = ?\<close>\<close>

definition select_messages :: "database \<Rightarrow> string \<Rightarrow> message_dict list" where
  "select_messages db sid =
     map (\<lambda>m. \<lparr>role = m_role m, content = m_content m, timestamp = m_timestamp m\<rparr>)
       (filter (\<lambda>m. m_session_id m = sid) (messages db))"

text \<open>
  \<open>get_messages\<close>: the selected rows under \<open>ORDER BY timestamp ASC\<close>. SQLite scans
  the rows of the session in rowid order and sorts them with a stable sorter, so rows
  with equal timestamps stay in rowid order: the result is the stable sort of the
  selected rows by \<open>timestamp\<close>.
\<close>

definition get_messages :: "database \<Rightarrow> string \<Rightarrow> message_dict list" where
  "get_messages db sid = sort_key timestamp (select_messages db sid)"

text \<open>\<open>get_messages_sql db sid res\<close>: \<open>res\<close> is a result that SQL allows for the
  query of \<open>get_messages\<close>, whatever the engine does with equal timestamps.\<close>

definition get_messages_sql :: "database \<Rightarrow> string \<Rightarrow> message_dict list \<Rightarrow> bool" where
  "get_messages_sql db sid res =
     order_by (\<lambda>a b. timestamp a \<le> timestamp b) (select_messages db sid) res"

text \<open>The rows of \<open>list_sessions\<close>.\<close>

record session_summary =
  ss_session_id :: string
  ss_created_at :: timestamp
  ss_updated_at :: timestamp
  message_count :: nat

text \<open>\<open>FROM sessions s LEFT JOIN messages m ON s.session_id = m.session_id\<close>: every
  session with each of its messages, or once with \<open>NULL\<close> columns when it has none.\<close>

definition join_rows :: "message_row list \<Rightarrow> session_row \<Rightarrow> (session_row \<times> message_row option) list" where
  "join_rows msgs s =
     (case filter (\<lambda>m. session_id s = m_session_id m) msgs of
        [] \<Rightarrow> [(s, None)]
      | ms \<Rightarrow> map (\<lambda>m. (s, Some m)) ms)"

definition left_join :: "database \<Rightarrow> (session_row \<times> message_row option) list" where
  "left_join db = concat (map (join_rows (messages db)) (sessions db))"

text \<open>\<open>GROUP BY s.session_id\<close> with \<open>COUNT(m.id)\<close>: one row for each id among the
  joined rows; the count is the number of rows of the group whose \<open>m.id\<close> is not
  \<open>NULL\<close>; the bare columns \<open>created_at\<close> and \<open>updated_at\<close> come from a row of the
  group.\<close>

definition group_by_session ::
  "(session_row \<times> message_row option) list \<Rightarrow> session_summary list" where
  "group_by_session joined =
     map (\<lambda>k. let grp = filter (\<lambda>(s, m). session_id s = k) joined in
            \<lparr>ss_session_id = k,
             ss_created_at = created_at (fst (hd grp)),
             ss_updated_at = updated_at (fst (hd grp)),
             message_count = length (filter (\<lambda>(s, m). m \<noteq> None) grp)\<rparr>)
       (remdups (map (\<lambda>(s, m). session_id s) joined))"

text \<open>\<open>list_sessions db res\<close>: \<open>res\<close> is a list that \<open>list_sessions()\<close> may return,
  the groups under \<open>ORDER BY s.updated_at DESC\<close>; the order in which the engine forms
  the groups is not fixed by the query, so every sorted arrangement is admitted.\<close>

definition list_sessions :: "database \<Rightarrow> session_summary list \<Rightarrow> bool" where
  "list_sessions db res =
     order_by (\<lambda>a b. ss_updated_at a \<ge> ss_updated_at b) (group_by_session (left_join db)) res"

subsection \<open>Sequences of storage operations\<close>

text \<open>
  A call of a writing method, with the fault of the medium during the call and the
  reading of the clock that the call takes (\<open>delete_session\<close> takes none). The store
  after a sequence of calls is what the calls leave on disk, whether they return or
  raise. The reading methods change nothing.
\<close>

datatype call =
  CreateSession string
| AddMessage string string string
| DeleteSession string

type_synonym step = "nat option \<times> timestamp \<times> call"

fun apply_call :: "step \<Rightarrow> database \<Rightarrow> database" where
  "apply_call (fault, now, CreateSession sid) db = snd (create_session fault now sid db)"
| "apply_call (fault, now, AddMessage sid r ct) db = snd (add_message fault now sid r ct db)"
| "apply_call (fault, now, DeleteSession sid) db = snd (delete_session fault sid db)"

fun run_calls :: "step list \<Rightarrow> database \<Rightarrow> database" where
  "run_calls [] db = db"
| "run_calls (st # sts) db = run_calls sts (apply_call st db)"

definition clock :: "step \<Rightarrow> timestamp" where
  "clock st = fst (snd st)"

section \<open>The endpoints of \<open>app.py\<close>\<close>

text \<open>
  The process holds the dictionary \<open>chat_sessions\<close>; the SQLite file is the other part
  of the state that a request could touch. A session of the dictionary has the keys
  \<open>created_at\<close> and \<open>messages\<close>.
\<close>

record chat_session =
  cs_created_at :: timestamp
  cs_messages :: "message_dict list"

record server =
  chat_sessions :: "string \<rightharpoonup> chat_session"
  store :: database

datatype response =
  Root string "(string \<times> string) list"
| StartChatResponse string string timestamp
| ChatResponse string string string timestamp
| ChatHistory string "message_dict list"
| Message string

datatype http_error = HTTPException nat string

definition read_root :: "server \<Rightarrow> (http_error + response) \<times> server" where
  "read_root sv =
     (Inr (Root ''Welcome to the Chat Assistant API''
             [(''start_chat'', ''/start_chat''), (''chat'', ''/chat/{session_id}'')]), sv)"

text \<open>\<open>start_chat\<close>: \<open>uuid\<close> is the value of \<open>str(uuid.uuid4())\<close>.\<close>

definition start_chat :: "string \<Rightarrow> timestamp \<Rightarrow> server \<Rightarrow> (http_error + response) \<times> server" where
  "start_chat uuid now sv =
     (let sessions' = (chat_sessions sv)(uuid \<mapsto> \<lparr>cs_created_at = now, cs_messages = []\<rparr>)
      in (Inr (StartChatResponse uuid
                ''Chat session created successfully. Use this session_id to send messages.''
                now),
          sv\<lparr>chat_sessions := sessions'\<rparr>))"

text \<open>\<open>chat_with_space\<close> reads the clock three times: for the user message, for the
  assistant message and for the response.\<close>

definition chat_with_space ::
  "string \<Rightarrow> string \<Rightarrow> timestamp \<Rightarrow> timestamp \<Rightarrow> timestamp \<Rightarrow> server
     \<Rightarrow> (http_error + response) \<times> server" where
  "chat_with_space sid msg t_user t_assistant t_response sv =
     (case chat_sessions sv sid of
        None \<Rightarrow>
          (Inl (HTTPException 404
                  (''Session '' @ sid @ '' not found. Please start a new chat session.'')), sv)
      | Some session \<Rightarrow>
          (let session1 = session\<lparr>cs_messages := cs_messages session @
                 [\<lparr>role = ''user'', content = msg, timestamp = t_user\<rparr>]\<rparr>;
               assistant_response = ''Echo: '' @ msg;
               session2 = session1\<lparr>cs_messages := cs_messages session1 @
                 [\<lparr>role = ''assistant'', content = assistant_response,
                   timestamp = t_assistant\<rparr>]\<rparr>
           in (Inr (ChatResponse sid msg assistant_response t_response),
               sv\<lparr>chat_sessions := (chat_sessions sv)(sid \<mapsto> session2)\<rparr>)))"

definition get_chat_history :: "string \<Rightarrow> server \<Rightarrow> (http_error + response) \<times> server" where
  "get_chat_history sid sv =
     (case chat_sessions sv sid of
        None \<Rightarrow> (Inl (HTTPException 404 (''Session '' @ sid @ '' not found.'')), sv)
      | Some session \<Rightarrow> (Inr (ChatHistory sid (cs_messages session)), sv))"

text \<open>The endpoint \<open>delete_session\<close> of \<open>app.py\<close>.\<close>

definition delete_session_endpoint ::
  "string \<Rightarrow> server \<Rightarrow> (http_error + response) \<times> server" where
  "delete_session_endpoint sid sv =
     (case chat_sessions sv sid of
        None \<Rightarrow> (Inl (HTTPException 404 (''Session '' @ sid @ '' not found.'')), sv)
      | Some session \<Rightarrow>
          (Inr (Message (''Session '' @ sid @ '' deleted successfully'')),
           sv\<lparr>chat_sessions := (chat_sessions sv)(sid := None)\<rparr>))"

text \<open>A request names its endpoint, its arguments and the values that the endpoint
  draws from \<open>uuid4\<close> and the clock.\<close>

datatype request =
  ReadRoot
| StartChat string timestamp
| ChatWithSpace string string timestamp timestamp timestamp
| GetChatHistory string
| DeleteSessionRequest string

fun handle :: "request \<Rightarrow> server \<Rightarrow> (http_error + response) \<times> server" where
  "handle ReadRoot sv = read_root sv"
| "handle (StartChat uuid now) sv = start_chat uuid now sv"
| "handle (ChatWithSpace sid msg t1 t2 t3) sv = chat_with_space sid msg t1 t2 t3 sv"
| "handle (GetChatHistory sid) sv = get_chat_history sid sv"
| "handle (DeleteSessionRequest sid) sv = delete_session_endpoint sid sv"

fun serve :: "request list \<Rightarrow> server \<Rightarrow> server" where
  "serve [] sv = sv"
| "serve (rq # rqs) sv = serve rqs (snd (handle rq sv))"

text \<open>
  FastAPI runs an endpoint declared with a plain \<open>def\<close> in a thread of its pool, so
  requests may overlap. The two appends of \<open>chat_with_space\<close> are separate steps of
  the thread that handles the request, each on the session object that the thread
  looked up: \<open>store_user_message\<close> is the first append (lines 73 to 77),
  \<open>store_assistant_response\<close> the second (lines 81 to 94). \<open>thread_step\<close> applies
  such a step to the object bound to the session id, for as long as the dictionary
  holds that object.
\<close>

definition store_user_message :: "string \<Rightarrow> timestamp \<Rightarrow> chat_session \<Rightarrow> chat_session" where
  "store_user_message msg t_user session =
     session\<lparr>cs_messages := cs_messages session @
       [\<lparr>role = ''user'', content = msg, timestamp = t_user\<rparr>]\<rparr>"

definition store_assistant_response ::
  "string \<Rightarrow> timestamp \<Rightarrow> chat_session \<Rightarrow> chat_session" where
  "store_assistant_response msg t_assistant session =
     (let assistant_response = ''Echo: '' @ msg
      in session\<lparr>cs_messages := cs_messages session @
           [\<lparr>role = ''assistant'', content = assistant_response,
             timestamp = t_assistant\<rparr>]\<rparr>)"

definition thread_step :: "string \<Rightarrow> (chat_session \<Rightarrow> chat_session) \<Rightarrow> server \<Rightarrow> server" where
  "thread_step sid f sv =
     (case chat_sessions sv sid of
        None \<Rightarrow> sv
      | Some session \<Rightarrow> sv\<lparr>chat_sessions := (chat_sessions sv)(sid \<mapsto> f session)\<rparr>)"

text \<open>
  The shape that \<open>chat_with_space\<close> gives a history: pairs of a user message and an
  assistant message that echoes it.
\<close>

fun echo_pairs :: "message_dict list \<Rightarrow> bool" where
  "echo_pairs [] = True"
| "echo_pairs [u] = False"
| "echo_pairs (u # a # rest) =
     (role u = ''user'' \<and> role a = ''assistant'' \<and> content a = ''Echo: '' @ content u \<and>
      echo_pairs rest)"

text \<open>At start the dictionary is empty: \<open>chat_sessions = {}\<close>.\<close>

definition start_server :: "database \<Rightarrow> server" where
  "start_server db = \<lparr>chat_sessions = Map.empty, store = db\<rparr>"

text \<open>A store with the one session \<open>s1\<close>, created at instant 1.\<close>

definition example_db :: database where
  "example_db = \<lparr>sessions = [\<lparr>session_id = ''s1'', created_at = 1, updated_at = 1\<rparr>],
                  messages = [], sqlite_sequence = 0\<rparr>"

section \<open>What each writing method leaves on disk\<close>

lemmas sql_defs = with_connection_def then_do_def return_value_def execute_def commit_def
  commit_txn_def rollback_def close_def get_connection_def

lemma add_message_cases:
  "add_message f now sid r ct db =
     (if f \<in> {Some 0, Some 1, Some 2} \<or> max_rowid \<le> last_rowid db
      then (Inl OperationalError, db)
      else (Inr \<lparr>am_session_id = sid, am_role = r, am_content = ct, am_timestamp = now\<rparr>,
            db\<lparr>messages := messages db @
                  [\<lparr>m_id = Suc (last_rowid db), m_session_id = sid, m_role = r,
                    m_content = ct, m_timestamp = now\<rparr>],
                sqlite_sequence := Suc (last_rowid db),
                sessions := map (\<lambda>s. if session_id s = sid then s\<lparr>updated_at := now\<rparr> else s)
                              (sessions db)\<rparr>))"
  by (simp add: add_message_def sql_defs insert_message_def update_updated_at_def)

lemma create_session_cases:
  "create_session f now sid db =
     (if f = Some 0 then (Inl OperationalError, db)
      else if session_exists db sid then (Inl IntegrityError, db)
      else if f = Some 1 then (Inl OperationalError, db)
      else (Inr \<lparr>session_id = sid, created_at = now, updated_at = now\<rparr>,
            db\<lparr>sessions := sessions db @ [\<lparr>session_id = sid, created_at = now, updated_at = now\<rparr>]\<rparr>))"
  by (simp add: create_session_def sql_defs insert_session_def session_exists_def)

lemma delete_session_cases:
  "delete_session f sid db =
     (if f \<in> {Some 0, Some 1, Some 2} then (Inl OperationalError, db)
      else (Inr (session_exists db sid),
            db\<lparr>messages := filter (\<lambda>m. m_session_id m \<noteq> sid) (messages db),
                sessions := filter (\<lambda>s. session_id s \<noteq> sid) (sessions db)\<rparr>))"
  by (auto simp add: delete_session_def sql_defs delete_messages_def delete_sessions_def session_exists_def filter_empty_conv)

lemma session_id_bump:
  "session_id \<circ> (\<lambda>s. if session_id s = sid then s\<lparr>updated_at := now\<rparr> else s) = session_id"
  by (auto simp: fun_eq_iff)

lemma distinct_ids_apply_call:
  "distinct (map session_id (sessions db)) \<Longrightarrow> distinct (map session_id (sessions (apply_call st db)))"
proof -
  assume d: "distinct (map session_id (sessions db))"
  obtain f now c where st: "st = (f, now, c)" by (cases st)
  show ?thesis
  proof (cases c)
    case (CreateSession sid)
    with d st show ?thesis by (simp add: create_session_cases session_exists_def)
  next
    case (AddMessage sid r ct)
    with d st show ?thesis by (simp add: add_message_cases session_id_bump)
  next
    case (DeleteSession sid)
    with d st show ?thesis by (simp add: delete_session_cases distinct_map_filter)
  qed
qed

lemma distinct_ids_run_calls:
  "distinct (map session_id (sessions db)) \<Longrightarrow> distinct (map session_id (sessions (run_calls sts db)))"
  by (induction sts arbitrary: db) (simp_all add: distinct_ids_apply_call)

lemma join_rows_fst: "p \<in> set (join_rows msgs s) \<Longrightarrow> fst p = s"
  by (auto simp: join_rows_def split: list.splits)

lemma join_rows_not_Nil: "join_rows msgs s \<noteq> []"
  by (simp add: join_rows_def split: list.splits)

lemma join_rows_count:
  "length (filter (\<lambda>(s', m). m \<noteq> None) (join_rows msgs s)) =
   length (filter (\<lambda>m. m_session_id m = session_id s) msgs)"
proof -
  have eq: "filter (\<lambda>m. session_id s = m_session_id m) msgs = filter (\<lambda>m. m_session_id m = session_id s) msgs"
    by (rule filter_cong) auto
  show ?thesis
    by (cases "filter (\<lambda>m. m_session_id m = session_id s) msgs")
       (simp_all add: join_rows_def eq filter_map comp_def)
qed

lemma join_rows_group:
  "filter (\<lambda>(s', m). session_id s' = k) (join_rows msgs s) = (if session_id s = k then join_rows msgs s else [])"
proof -
  have "\<forall>p \<in> set (join_rows msgs s). fst p = s" by (simp add: join_rows_fst)
  then show ?thesis by (auto simp: filter_empty_conv filter_id_conv)
qed

lemma left_join_group:
  "distinct (map session_id ss) \<Longrightarrow> s \<in> set ss \<Longrightarrow>
   filter (\<lambda>(s', m). session_id s' = session_id s) (concat (map (join_rows msgs) ss)) = join_rows msgs s"
proof (induction ss)
  case Nil
  then show ?case by simp
next
  case (Cons a ss)
  have other: "filter (\<lambda>(s', m). session_id s' = k) (concat (map (join_rows msgs) ss)) = []"
    if "k \<notin> session_id ` set ss" for k
    using that by (induction ss) (auto simp: join_rows_group)
  show ?case
  proof (cases "s = a")
    case True
    with Cons.prems have "session_id a \<notin> session_id ` set ss" by simp
    with True show ?thesis by (simp add: join_rows_group other)
  next
    case False
    with Cons.prems have "s \<in> set ss" "session_id a \<noteq> session_id s" by auto
    with Cons show ?thesis by (simp add: join_rows_group)
  qed
qed

lemma left_join_keys:
  "set (map (\<lambda>(s, m). session_id s) (concat (map (join_rows msgs) ss))) = session_id ` set ss"
proof -
  have "set (map (\<lambda>(s, m). session_id s) (join_rows msgs s)) = {session_id s}" for s
  proof -
    have "\<forall>p \<in> set (join_rows msgs s). fst p = s" by (simp add: join_rows_fst)
    moreover have "set (join_rows msgs s) \<noteq> {}" by (simp add: join_rows_not_Nil)
    then obtain p where "p \<in> set (join_rows msgs s)" by fastforce
    ultimately show ?thesis by (force simp: case_prod_unfold)
  qed
  then show ?thesis by (induction ss) auto
qed

lemma group_by_session_count:
  assumes d: "distinct (map session_id (sessions db))"
    and mem: "sm \<in> set (group_by_session (left_join db))"
  shows "message_count sm = length (filter (\<lambda>m. m_session_id m = ss_session_id sm) (messages db))"
proof -
  from mem obtain k where k: "k \<in> session_id ` set (sessions db)"
    and sm: "sm = (let grp = filter (\<lambda>(s, m). session_id s = k) (left_join db) in
            \<lparr>ss_session_id = k,
             ss_created_at = created_at (fst (hd grp)),
             ss_updated_at = updated_at (fst (hd grp)),
             message_count = length (filter (\<lambda>(s, m). m \<noteq> None) grp)\<rparr>)"
    unfolding group_by_session_def left_join_def
    using left_join_keys [of "messages db" "sessions db"] by auto
  from k obtain s where s: "s \<in> set (sessions db)" "k = session_id s" by auto
  have grp: "filter (\<lambda>(s', m). session_id s' = k) (left_join db) = join_rows (messages db) s"
    using left_join_group [OF d s(1)] s(2) by (simp add: left_join_def)
  have key: "ss_session_id sm = session_id s"
    by (simp add: sm Let_def s(2))
  have "message_count sm =
          length (filter (\<lambda>(s', m). m \<noteq> None) (filter (\<lambda>(s', m). session_id s' = k) (left_join db)))"
    by (simp add: sm Let_def del: filter_filter)
  also have "\<dots> = length (filter (\<lambda>(s', m). m \<noteq> None) (join_rows (messages db) s))"
    by (simp only: grp)
  also have "\<dots> = length (filter (\<lambda>m. m_session_id m = session_id s) (messages db))"
    by (rule join_rows_count)
  finally show ?thesis by (simp only: key)
qed

lemma order_by_length: "order_by le rows res \<Longrightarrow> length res = length rows"
  by (auto simp: order_by_def dest: mset_eq_length)

lemma order_by_set: "order_by le rows res \<Longrightarrow> set res = set rows"
  by (auto simp: order_by_def dest: mset_eq_setD)

lemma bump_sessions:
  "session_exists db sid \<Longrightarrow>
   session_exists (db\<lparr>sessions := map (\<lambda>s. if session_id s = sid then s\<lparr>updated_at := now\<rparr> else s) (sessions db)\<rparr>) sid"
  by (simp add: session_exists_def session_id_bump)

lemma bump_updated_at:
  assumes "s \<in> set (map (\<lambda>s. if session_id s = sid then s\<lparr>updated_at := now\<rparr> else s) ss)"
    and "session_id s = sid"
  shows "updated_at s = now"
proof -
  from assms(1) obtain x where x: "s = (if session_id x = sid then x\<lparr>updated_at := now\<rparr> else x)"
    by (auto simp only: set_map image_iff)
  show ?thesis
  proof (cases "session_id x = sid")
    case True
    with x show ?thesis by simp
  next
    case False
    with x assms(2) show ?thesis by simp
  qed
qed

lemma add_message_ok:
  "fault \<notin> {Some 0, Some 1, Some 2} \<Longrightarrow> last_rowid db < max_rowid \<Longrightarrow>
   fst (add_message fault now sid r ct db) =
     Inr \<lparr>am_session_id = sid, am_role = r, am_content = ct, am_timestamp = now\<rparr> \<and>
   messages (snd (add_message fault now sid r ct db)) =
     messages db @ [\<lparr>m_id = Suc (last_rowid db), m_session_id = sid, m_role = r,
                     m_content = ct, m_timestamp = now\<rparr>] \<and>
   sessions (snd (add_message fault now sid r ct db)) =
     map (\<lambda>s. if session_id s = sid then s\<lparr>updated_at := now\<rparr> else s) (sessions db) \<and>
   sqlite_sequence (snd (add_message fault now sid r ct db)) = Suc (last_rowid db)"
  by (simp add: add_message_cases)

lemma add_message_raises:
  "fault \<in> {Some 0, Some 1, Some 2} \<or> max_rowid \<le> last_rowid db \<Longrightarrow>
   add_message fault now sid r ct db = (Inl OperationalError, db)"
  by (simp add: add_message_cases)

text \<open>Were foreign keys enforced on the connection, the insertion of a message for an
  absent session would raise and change nothing.\<close>

lemma insert_message_enforced:
  "foreign_keys c \<Longrightarrow> sid \<notin> set (map session_id (sessions (txn c))) \<Longrightarrow>
   insert_message sid r ct ts c =
     (Inl (if max_rowid \<le> last_rowid (txn c) then OperationalError else IntegrityError), c)"
  by (simp add: insert_message_def)

section \<open>Claims about the store\<close>

text \<open>
  C1. The claim: for a session id absent from \<open>sessions\<close>, \<open>add_message\<close> fails with
  NotFound and persists nothing. The code at the input of the spec's own scenario,
  \<open>add_message("missing", "user", "x")\<close> on a new database: no session \<open>missing\<close>
  exists, the call returns the message dictionary, and the row is committed to
  \<open>messages\<close>.
\<close>

theorem add_message_absent_session_persists:
  "\<not> session_exists init_db ''missing'' \<and>
   add_message None 7 ''missing'' ''user'' ''x'' init_db =
     (Inr \<lparr>am_session_id = ''missing'', am_role = ''user'', am_content = ''x'', am_timestamp = 7\<rparr>,
      \<lparr>sessions = [],
       messages = [\<lparr>m_id = 1, m_session_id = ''missing'', m_role = ''user'', m_content = ''x'',
                    m_timestamp = 7\<rparr>],
       sqlite_sequence = 1\<rparr>)"
  by (simp add: add_message_cases init_db_def session_exists_def last_rowid_def max_rowid_def)

text \<open>
  C3. For an existing session \<open>add_message\<close> is atomic, and which of its two outcomes
  occurs is decided by the medium alone. When a call on the connection fails (the
  insertion, for a fault or because the rowids are used up; the update; the commit) the
  method raises and the store is what it was: no message row, no change of
  \<open>updated_at\<close>. Otherwise it returns the message, and the store has both effects and
  nothing else: the row is appended to \<open>messages\<close>, the rows of the session have
  \<open>updated_at\<close> equal to the timestamp of the message, and the other session rows are
  unchanged.
\<close>

theorem add_message_atomic:
  assumes "session_exists db sid"
  shows "(if fault \<in> {Some 0, Some 1, Some 2} \<or> max_rowid \<le> last_rowid db
          then add_message fault now sid r ct db = (Inl OperationalError, db)
          else fst (add_message fault now sid r ct db) =
                 Inr \<lparr>am_session_id = sid, am_role = r, am_content = ct, am_timestamp = now\<rparr> \<and>
               messages (snd (add_message fault now sid r ct db)) =
                 messages db @ [\<lparr>m_id = Suc (last_rowid db), m_session_id = sid, m_role = r,
                                 m_content = ct, m_timestamp = now\<rparr>] \<and>
               sessions (snd (add_message fault now sid r ct db)) =
                 map (\<lambda>s. if session_id s = sid then s\<lparr>updated_at := now\<rparr> else s)
                   (sessions db) \<and>
               sqlite_sequence (snd (add_message fault now sid r ct db)) = Suc (last_rowid db) \<and>
               session_exists (snd (add_message fault now sid r ct db)) sid \<and>
               (\<forall>s \<in> set (sessions (snd (add_message fault now sid r ct db))).
                  session_id s = sid \<longrightarrow> updated_at s = now))"
proof (cases "fault \<in> {Some 0, Some 1, Some 2} \<or> max_rowid \<le> last_rowid db")
  case True
  then have "add_message fault now sid r ct db = (Inl OperationalError, db)"
    by (rule add_message_raises)
  with True show ?thesis by simp
next
  case False
  then have f: "fault \<notin> {Some 0, Some 1, Some 2}" and room: "last_rowid db < max_rowid"
    by auto
  note ok = add_message_ok [OF f room, of now sid r ct]
  have ex: "session_exists (snd (add_message fault now sid r ct db)) sid"
    using assms by (simp only: session_exists_def ok map_map session_id_bump)
  have up: "\<forall>s \<in> set (sessions (snd (add_message fault now sid r ct db))).
             session_id s = sid \<longrightarrow> updated_at s = now"
    by (simp only: ok) (blast dest: bump_updated_at)
  from ok ex up have both: "fst (add_message fault now sid r ct db) =
                 Inr \<lparr>am_session_id = sid, am_role = r, am_content = ct, am_timestamp = now\<rparr> \<and>
               messages (snd (add_message fault now sid r ct db)) =
                 messages db @ [\<lparr>m_id = Suc (last_rowid db), m_session_id = sid, m_role = r,
                                 m_content = ct, m_timestamp = now\<rparr>] \<and>
               sessions (snd (add_message fault now sid r ct db)) =
                 map (\<lambda>s. if session_id s = sid then s\<lparr>updated_at := now\<rparr> else s)
                   (sessions db) \<and>
               sqlite_sequence (snd (add_message fault now sid r ct db)) = Suc (last_rowid db) \<and>
               session_exists (snd (add_message fault now sid r ct db)) sid \<and>
               (\<forall>s \<in> set (sessions (snd (add_message fault now sid r ct db))).
                  session_id s = sid \<longrightarrow> updated_at s = now)"
    by blast
  show ?thesis by (subst if_not_P [OF False]) (rule both)
qed

text \<open>On a healthy medium the call on \<open>example_db\<close> returns and commits both effects;
  with the update failing it raises and commits nothing.\<close>

theorem add_message_atomic_witness:
  "session_exists example_db ''s1'' \<and>
   fst (add_message None 5 ''s1'' ''user'' ''hi'' example_db) =
     Inr \<lparr>am_session_id = ''s1'', am_role = ''user'', am_content = ''hi'', am_timestamp = 5\<rparr> \<and>
   messages (snd (add_message None 5 ''s1'' ''user'' ''hi'' example_db)) =
     [\<lparr>m_id = 1, m_session_id = ''s1'', m_role = ''user'', m_content = ''hi'',
       m_timestamp = 5\<rparr>] \<and>
   sessions (snd (add_message None 5 ''s1'' ''user'' ''hi'' example_db)) =
     [\<lparr>session_id = ''s1'', created_at = 1, updated_at = 5\<rparr>] \<and>
   add_message (Some 1) 5 ''s1'' ''user'' ''hi'' example_db = (Inl OperationalError, example_db)"
proof -
  have h: "session_exists example_db ''s1''"
    by (simp add: session_exists_def example_db_def)
  have room: "\<not> max_rowid \<le> last_rowid example_db"
    by (simp add: last_rowid_def max_rowid_def example_db_def)
  have l: "last_rowid example_db = 0"
    by (simp add: last_rowid_def example_db_def)
  from add_message_atomic [OF h, of None 5 "''user''" "''hi''"] room
  have ok: "fst (add_message None 5 ''s1'' ''user'' ''hi'' example_db) =
       Inr \<lparr>am_session_id = ''s1'', am_role = ''user'', am_content = ''hi'', am_timestamp = 5\<rparr> \<and>
     messages (snd (add_message None 5 ''s1'' ''user'' ''hi'' example_db)) =
       [\<lparr>m_id = 1, m_session_id = ''s1'', m_role = ''user'', m_content = ''hi'',
         m_timestamp = 5\<rparr>] \<and>
     sessions (snd (add_message None 5 ''s1'' ''user'' ''hi'' example_db)) =
       [\<lparr>session_id = ''s1'', created_at = 1, updated_at = 5\<rparr>]"
    by (simp add: l) (simp add: example_db_def)
  from add_message_atomic [OF h, of "Some 1" 5 "''user''" "''hi''"]
  have bad: "add_message (Some 1) 5 ''s1'' ''user'' ''hi'' example_db =
      (Inl OperationalError, example_db)"
    by simp
  from h ok bad show ?thesis by blast
qed

text \<open>
  C10. On a healthy medium \<open>delete_session\<close> returns whether a session row with the id
  existed before the call, and in both cases the store it leaves has no session row and
  no message row with that id: the messages of an absent session are deleted on the
  path that returns \<open>False\<close> too.
\<close>

theorem delete_session_found:
  "delete_session None sid db =
     (Inr (session_exists db sid),
      db\<lparr>messages := filter (\<lambda>m. m_session_id m \<noteq> sid) (messages db),
         sessions := filter (\<lambda>s. session_id s \<noteq> sid) (sessions db)\<rparr>)"
  by (simp add: delete_session_cases)

lemma get_messages_admitted: "get_messages_sql db sid (get_messages db sid)"
proof -
  have "sorted (map timestamp (sort_key timestamp (select_messages db sid)))"
    by (rule sorted_sort_key)
  then have "sorted_wrt (\<lambda>a b. timestamp a \<le> timestamp b)
               (sort_key timestamp (select_messages db sid))"
    by (simp only: sorted_map)
  then show ?thesis
    by (simp add: get_messages_sql_def get_messages_def order_by_def)
qed

text \<open>
  C5. In every store reached from a new database by a sequence of calls (healthy or
  faulty), for every row of a result of \<open>list_sessions\<close>, its \<open>message_count\<close> is the
  length of every result that SQL allows for the query of \<open>get_messages\<close> on the same
  session id, and so of the list that \<open>get_messages\<close> returns.
\<close>

theorem list_sessions_count:
  assumes "list_sessions (run_calls sts init_db) summaries"
    and "sm \<in> set summaries"
    and "get_messages_sql (run_calls sts init_db) (ss_session_id sm) msgs"
  shows "message_count sm = length msgs \<and>
         message_count sm = length (get_messages (run_calls sts init_db) (ss_session_id sm))"
proof -
  let ?db = "run_calls sts init_db"
  have d: "distinct (map session_id (sessions ?db))"
    by (rule distinct_ids_run_calls) (simp add: init_db_def)
  from assms(1,2) have "sm \<in> set (group_by_session (left_join ?db))"
    by (auto simp: list_sessions_def dest: order_by_set)
  from group_by_session_count [OF d this]
  have c: "message_count sm = length (select_messages ?db (ss_session_id sm))"
    by (simp add: select_messages_def)
  from c assms(3) have "message_count sm = length msgs"
    by (simp add: get_messages_sql_def order_by_length)
  moreover from c have "message_count sm = length (get_messages ?db (ss_session_id sm))"
    by (simp add: get_messages_def)
  ultimately show ?thesis ..
qed

theorem list_sessions_count_witness:
  "list_sessions
     (run_calls [(None, 1, CreateSession ''s1''), (None, 5, AddMessage ''s1'' ''user'' ''hi''),
                 (None, 6, AddMessage ''s1'' ''assistant'' ''hello'')] init_db)
     [\<lparr>ss_session_id = ''s1'', ss_created_at = 1, ss_updated_at = 6, message_count = 2\<rparr>] \<and>
   get_messages_sql
     (run_calls [(None, 1, CreateSession ''s1''), (None, 5, AddMessage ''s1'' ''user'' ''hi''),
                 (None, 6, AddMessage ''s1'' ''assistant'' ''hello'')] init_db) ''s1''
     [\<lparr>role = ''user'', content = ''hi'', timestamp = 5\<rparr>,
      \<lparr>role = ''assistant'', content = ''hello'', timestamp = 6\<rparr>] \<and>
   message_count \<lparr>ss_session_id = ''s1'', ss_created_at = 1, ss_updated_at = 6, message_count = 2\<rparr> =
   length [\<lparr>role = ''user'', content = ''hi'', timestamp = 5\<rparr>,
      \<lparr>role = ''assistant'', content = ''hello'', timestamp = 6\<rparr>] \<and>
   length (get_messages
     (run_calls [(None, 1, CreateSession ''s1''), (None, 5, AddMessage ''s1'' ''user'' ''hi''),
                 (None, 6, AddMessage ''s1'' ''assistant'' ''hello'')] init_db) ''s1'') = 2"
proof -
  let ?sts = "[(None, 1, CreateSession ''s1''), (None, 5, AddMessage ''s1'' ''user'' ''hi''),
                 (None, 6, AddMessage ''s1'' ''assistant'' ''hello'')]"
  let ?sm = "\<lparr>ss_session_id = ''s1'', ss_created_at = 1, ss_updated_at = 6, message_count = 2\<rparr>"
  have db: "run_calls ?sts init_db =
     \<lparr>sessions = [\<lparr>session_id = ''s1'', created_at = 1, updated_at = 6\<rparr>],
      messages = [\<lparr>m_id = 1, m_session_id = ''s1'', m_role = ''user'', m_content = ''hi'', m_timestamp = 5\<rparr>,
                  \<lparr>m_id = 2, m_session_id = ''s1'', m_role = ''assistant'', m_content = ''hello'', m_timestamp = 6\<rparr>],
      sqlite_sequence = 2\<rparr>"
    by (simp add: add_message_cases create_session_cases init_db_def session_exists_def
          last_rowid_def max_rowid_def)
  have h1: "list_sessions (run_calls ?sts init_db) [?sm]"
    unfolding db
    by (simp add: list_sessions_def order_by_def group_by_session_def left_join_def join_rows_def)
  have h2: "?sm \<in> set [?sm]" by simp
  have h3: "get_messages_sql (run_calls ?sts init_db) (ss_session_id ?sm)
     [\<lparr>role = ''user'', content = ''hi'', timestamp = 5\<rparr>,
      \<lparr>role = ''assistant'', content = ''hello'', timestamp = 6\<rparr>]"
    unfolding db by (simp add: get_messages_sql_def order_by_def select_messages_def)
  from list_sessions_count [OF h1 h2 h3] h1 h3 show ?thesis by simp
qed

subsection \<open>The order of \<open>get_messages\<close>\<close>

lemma fold_max_bound: "(\<forall>x \<in> set xs. x \<le> a) \<Longrightarrow> fold max xs a = (a::nat)"
  by (induction xs arbitrary: a) (simp_all add: max_absorb2)

lemma fold_max_ge: "(a::nat) \<le> fold max xs a \<and> (\<forall>x \<in> set xs. x \<le> fold max xs a)"
proof (induction xs arbitrary: a)
  case Nil
  show ?case by simp
next
  case (Cons y ys)
  from Cons.IH [of "max y a"] show ?case by auto
qed

lemma fold_max_snoc: "(\<forall>x \<in> set xs. x \<le> a) \<Longrightarrow> fold max (xs @ [a]) a = (a::nat)"
  by (simp add: fold_max_bound)

lemma last_rowid_add:
  assumes room: "last_rowid db < max_rowid"
  shows "last_rowid (snd (add_message None now sid r ct db)) = Suc (last_rowid db)"
proof -
  have "\<forall>x \<in> set (map m_id (messages db)). x \<le> Suc (last_rowid db)"
    using fold_max_ge [of "sqlite_sequence db" "map m_id (messages db)"]
    by (auto simp: last_rowid_def)
  then have "fold max (map m_id (messages db) @ [Suc (last_rowid db)]) (Suc (last_rowid db))
      = Suc (last_rowid db)"
    by (rule fold_max_snoc)
  moreover from room have "last_rowid (snd (add_message None now sid r ct db)) =
      fold max (map m_id (messages db) @ [Suc (last_rowid db)]) (Suc (last_rowid db))"
    by (simp add: add_message_cases last_rowid_def)
  ultimately show ?thesis by (simp only:)
qed

lemma select_messages_add:
  "last_rowid db < max_rowid \<Longrightarrow>
   select_messages (snd (add_message None now sid r ct db)) sid' =
     select_messages db sid' @
       (if sid = sid' then [\<lparr>role = r, content = ct, timestamp = now\<rparr>] else [])"
  by (simp add: add_message_cases select_messages_def)

lemma select_after_adds:
  "last_rowid db + length calls \<le> max_rowid \<Longrightarrow>
   select_messages (run_calls (map (\<lambda>(t, r, ct). (None, t, AddMessage sid r ct)) calls) db) sid =
     select_messages db sid @ map (\<lambda>(t, r, ct). \<lparr>role = r, content = ct, timestamp = t\<rparr>) calls"
proof (induction calls arbitrary: db)
  case Nil
  show ?case by simp
next
  case (Cons c calls)
  obtain t r ct where c: "c = (t, r, ct)" by (cases c)
  from Cons.prems have room: "last_rowid db < max_rowid" by simp
  from Cons.prems last_rowid_add [OF room, of t sid r ct]
  have "last_rowid (snd (add_message None t sid r ct db)) + length calls \<le> max_rowid"
    by simp
  from Cons.IH [OF this] show ?case
    by (simp add: c select_messages_add [OF room])
qed

text \<open>
  C2, as amended. On a session that has no messages, after \<open>N\<close> calls of
  \<open>add_message\<close> that succeed (a healthy medium with rowids left) and whose
  timestamps do not decrease in call order, \<open>get_messages\<close> returns exactly the \<open>N\<close>
  messages in call order; messages with equal timestamps come back in the order of
  their insertion. The query orders by \<open>timestamp\<close> alone: nothing is said of a
  message stamped earlier than one inserted before it.
\<close>

theorem get_messages_call_order:
  assumes "select_messages db sid = []"
    and "sorted (map fst calls)"
    and "last_rowid db + length calls \<le> max_rowid"
  shows "get_messages (run_calls (map (\<lambda>(t, r, ct). (None, t, AddMessage sid r ct)) calls) db) sid
         = map (\<lambda>(t, r, ct). \<lparr>role = r, content = ct, timestamp = t\<rparr>) calls"
proof -
  let ?rows = "map (\<lambda>(t, r, ct). \<lparr>role = r, content = ct, timestamp = t\<rparr>) calls"
  have "map timestamp ?rows = map fst calls" by (simp add: case_prod_unfold)
  with assms(2) have "sorted (map timestamp ?rows)" by (simp only:)
  then have "sort_key timestamp ?rows = ?rows" by (rule sort_key_id_if_sorted)
  then show ?thesis
    by (simp add: get_messages_def select_after_adds [OF assms(3)] assms(1))
qed

text \<open>Three calls, the last two at the same instant.\<close>

theorem get_messages_call_order_witness:
  "select_messages example_db ''s1'' = [] \<and>
   sorted (map fst [(5::nat, ''user'', ''hi''), (6, ''assistant'', ''hello''), (6, ''user'', ''bye'')]) \<and>
   last_rowid example_db +
     length [(5::nat, ''user'', ''hi''), (6, ''assistant'', ''hello''), (6, ''user'', ''bye'')]
     \<le> max_rowid \<and>
   get_messages
     (run_calls (map (\<lambda>(t, r, ct). (None, t, AddMessage ''s1'' r ct))
        [(5, ''user'', ''hi''), (6, ''assistant'', ''hello''), (6, ''user'', ''bye'')])
        example_db) ''s1'' =
     [\<lparr>role = ''user'', content = ''hi'', timestamp = 5\<rparr>,
      \<lparr>role = ''assistant'', content = ''hello'', timestamp = 6\<rparr>,
      \<lparr>role = ''user'', content = ''bye'', timestamp = 6\<rparr>]"
proof -
  have h1: "select_messages example_db ''s1'' = []"
    by (simp add: select_messages_def example_db_def)
  have h2: "sorted (map fst [(5::nat, ''user'', ''hi''), (6, ''assistant'', ''hello''),
      (6, ''user'', ''bye'')])"
    by simp
  have h3: "last_rowid example_db +
     length [(5::nat, ''user'', ''hi''), (6, ''assistant'', ''hello''), (6, ''user'', ''bye'')]
     \<le> max_rowid"
    by (simp add: last_rowid_def max_rowid_def example_db_def)
  from get_messages_call_order [OF h1 h2 h3] h1 h2 h3 show ?thesis by simp
qed

text \<open>
  C2, as stated, fails. The second message is added at an earlier reading of the clock
  than the first (the wall clock was set back between the calls); both calls succeed,
  and \<open>get_messages\<close> returns the two messages in the reverse of the call order.
\<close>

theorem get_messages_order_counterexample:
  "fst (add_message None 5 ''s1'' ''user'' ''a''
          (run_calls [(None, 1, CreateSession ''s1'')] init_db)) =
     Inr \<lparr>am_session_id = ''s1'', am_role = ''user'', am_content = ''a'', am_timestamp = 5\<rparr> \<and>
   fst (add_message None 3 ''s1'' ''assistant'' ''b''
          (run_calls [(None, 1, CreateSession ''s1''),
                      (None, 5, AddMessage ''s1'' ''user'' ''a'')] init_db)) =
     Inr \<lparr>am_session_id = ''s1'', am_role = ''assistant'', am_content = ''b'', am_timestamp = 3\<rparr> \<and>
   get_messages
     (run_calls [(None, 1, CreateSession ''s1''), (None, 5, AddMessage ''s1'' ''user'' ''a''),
                 (None, 3, AddMessage ''s1'' ''assistant'' ''b'')] init_db) ''s1'' =
     [\<lparr>role = ''assistant'', content = ''b'', timestamp = 3\<rparr>,
      \<lparr>role = ''user'', content = ''a'', timestamp = 5\<rparr>]"
  by (simp add: get_messages_def select_messages_def add_message_cases create_session_cases
        init_db_def session_exists_def last_rowid_def max_rowid_def)

subsection \<open>The timestamps of a session\<close>

lemma apply_call_timestamps:
  assumes inv: "\<forall>s \<in> set (sessions db). created_at s \<le> updated_at s \<and> created_at s \<le> t"
    and le: "t \<le> clock st"
  shows "\<forall>s \<in> set (sessions (apply_call st db)).
           created_at s \<le> updated_at s \<and> created_at s \<le> clock st"
proof -
  obtain f now c where st: "st = (f, now, c)" by (cases st)
  from le st have tn: "t \<le> now" by (simp add: clock_def)
  from inv tn have inv': "\<forall>s \<in> set (sessions db). created_at s \<le> updated_at s \<and> created_at s \<le> now"
    by auto
  show ?thesis
  proof (cases c)
    case (CreateSession sid)
    with inv' st show ?thesis by (auto simp: create_session_cases clock_def)
  next
    case (AddMessage sid r ct)
    with inv' st show ?thesis by (auto simp: add_message_cases clock_def)
  next
    case (DeleteSession sid)
    with inv' st show ?thesis by (auto simp: delete_session_cases clock_def)
  qed
qed

lemma run_calls_timestamps:
  "\<forall>s \<in> set (sessions db). created_at s \<le> updated_at s \<and> created_at s \<le> t \<Longrightarrow>
   sorted (t # map clock sts) \<Longrightarrow>
   \<forall>s \<in> set (sessions (run_calls sts db)). created_at s \<le> updated_at s"
proof (induction sts arbitrary: db t)
  case Nil
  then show ?case by simp
next
  case (Cons st sts)
  from Cons.prems(2) have le: "t \<le> clock st" and srt: "sorted (clock st # map clock sts)"
    by simp_all
  from apply_call_timestamps [OF Cons.prems(1) le] srt
  have "\<forall>s \<in> set (sessions (run_calls sts (apply_call st db))). created_at s \<le> updated_at s"
    by (rule Cons.IH)
  then show ?case by simp
qed

text \<open>
  C8, as amended. If the readings of the clock never decrease along a sequence of calls
  on a new database, every session row of the store it reaches has
  \<open>created_at \<le> updated_at\<close>: \<open>create_session\<close> writes the same reading in both
  columns and \<open>add_message\<close> overwrites \<open>updated_at\<close> with a later one.
\<close>

theorem updated_at_ge_created_at:
  assumes "sorted (map clock sts)"
  shows "\<forall>s \<in> set (sessions (run_calls sts init_db)). created_at s \<le> updated_at s"
proof -
  have "\<forall>s \<in> set (sessions init_db). created_at s \<le> updated_at s \<and> created_at s \<le> 0"
    by (simp add: init_db_def)
  moreover from assms have "sorted (0 # map clock sts)" by simp
  ultimately show ?thesis by (rule run_calls_timestamps)
qed

theorem updated_at_ge_created_at_witness:
  "sorted (map clock [(None, 1, CreateSession ''s1''), (None, 5, AddMessage ''s1'' ''user'' ''hi'')]) \<and>
   sessions (run_calls [(None, 1, CreateSession ''s1''), (None, 5, AddMessage ''s1'' ''user'' ''hi'')] init_db)
     = [\<lparr>session_id = ''s1'', created_at = 1, updated_at = 5\<rparr>] \<and>
   list_all (\<lambda>s. created_at s \<le> updated_at s)
     (sessions (run_calls [(None, 1, CreateSession ''s1''),
        (None, 5, AddMessage ''s1'' ''user'' ''hi'')] init_db))"
proof -
  have h: "sorted (map clock [(None, 1, CreateSession ''s1''), (None, 5, AddMessage ''s1'' ''user'' ''hi'')])"
    by (simp add: clock_def)
  have e: "sessions (run_calls [(None, 1, CreateSession ''s1''), (None, 5, AddMessage ''s1'' ''user'' ''hi'')] init_db)
     = [\<lparr>session_id = ''s1'', created_at = 1, updated_at = 5\<rparr>]"
    by (simp add: add_message_cases create_session_cases init_db_def session_exists_def
          last_rowid_def max_rowid_def)
  from updated_at_ge_created_at [OF h]
  have "list_all (\<lambda>s. created_at s \<le> updated_at s)
     (sessions (run_calls [(None, 1, CreateSession ''s1''),
        (None, 5, AddMessage ''s1'' ''user'' ''hi'')] init_db))"
    by (simp only: list_all_iff)
  with h e show ?thesis by blast
qed

text \<open>
  C8, as stated, fails: \<open>add_message\<close> writes its reading of \<open>datetime.now()\<close> into
  \<open>updated_at\<close> without comparing it with the stored values, and a wall clock that is
  set back between the two calls leaves \<open>updated_at < created_at\<close>.
\<close>

theorem updated_at_backward_clock_counterexample:
  "sessions (run_calls [(None, 5, CreateSession ''s1''), (None, 3, AddMessage ''s1'' ''user'' ''x'')] init_db)
     = [\<lparr>session_id = ''s1'', created_at = 5, updated_at = 3\<rparr>] \<and>
   \<not> (\<forall>s \<in> set (sessions (run_calls [(None, 5, CreateSession ''s1''),
          (None, 3, AddMessage ''s1'' ''user'' ''x'')] init_db)). created_at s \<le> updated_at s)"
  by (simp add: add_message_cases create_session_cases init_db_def session_exists_def
        last_rowid_def max_rowid_def)

section \<open>Claims about the endpoints\<close>

lemma thread_step_store: "store (thread_step sid f sv) = store sv"
  by (simp add: thread_step_def split: option.splits)

lemma handle_store: "store (snd (handle rq sv)) = store sv"
  by (cases rq)
     (simp_all add: read_root_def start_chat_def chat_with_space_def get_chat_history_def
        delete_session_endpoint_def Let_def split: option.splits)

text \<open>
  C4. No endpoint touches the SQLite store: a request, and so any sequence of requests,
  leaves it as it was; the endpoints read and write \<open>chat_sessions\<close> only.
\<close>

theorem endpoints_leave_store:
  "store (snd (handle rq sv)) = store sv \<and> store (serve rqs sv) = store sv"
proof
  show "store (snd (handle rq sv)) = store sv" by (rule handle_store)
  show "store (serve rqs sv) = store sv"
    by (induction rqs arbitrary: sv) (simp_all add: handle_store)
qed

lemma echo_pairs_append: "echo_pairs xs \<Longrightarrow> echo_pairs ys \<Longrightarrow> echo_pairs (xs @ ys)"
  by (induction xs rule: echo_pairs.induct) simp_all

lemma echo_pairs_even: "echo_pairs ms \<Longrightarrow> even (length ms)"
  by (induction ms rule: echo_pairs.induct) simp_all

lemma echo_pairs_role:
  "echo_pairs ms \<Longrightarrow> i < length ms \<Longrightarrow> role (ms ! i) = (if even i then ''user'' else ''assistant'')"
proof (induction ms arbitrary: i rule: echo_pairs.induct)
  case 1
  then show ?case by simp
next
  case (2 u)
  then show ?case by simp
next
  case (3 u a rest)
  show ?case
  proof (cases i)
    case 0
    with 3 show ?thesis by simp
  next
    case (Suc j)
    show ?thesis
    proof (cases j)
      case 0
      with Suc 3 show ?thesis by simp
    next
      case (Suc k)
      with 3 \<open>i = Suc j\<close> have "role (rest ! k) = (if even k then ''user'' else ''assistant'')"
        by simp
      with Suc \<open>i = Suc j\<close> show ?thesis by simp
    qed
  qed
qed

lemma echo_pairs_content:
  "echo_pairs ms \<Longrightarrow> 2 * i + 1 < length ms \<Longrightarrow>
   content (ms ! (2 * i + 1)) = ''Echo: '' @ content (ms ! (2 * i))"
proof (induction ms arbitrary: i rule: echo_pairs.induct)
  case 1
  then show ?case by simp
next
  case (2 u)
  then show ?case by simp
next
  case (3 u a rest)
  show ?case
  proof (cases i)
    case 0
    with 3 show ?thesis by simp
  next
    case (Suc j)
    with 3 have "content (rest ! (2 * j + 1)) = ''Echo: '' @ content (rest ! (2 * j))"
      by simp
    with Suc show ?thesis by simp
  qed
qed

lemma handle_echo_pairs:
  assumes "\<forall>sid s. chat_sessions sv sid = Some s \<longrightarrow> echo_pairs (cs_messages s)"
  shows "\<forall>sid s. chat_sessions (snd (handle rq sv)) sid = Some s \<longrightarrow> echo_pairs (cs_messages s)"
proof (cases rq)
  case ReadRoot
  with assms show ?thesis by (simp add: read_root_def)
next
  case (StartChat uuid now)
  with assms show ?thesis by (auto simp: start_chat_def Let_def)
next
  case (ChatWithSpace sid msg t1 t2 t3)
  show ?thesis
  proof (cases "chat_sessions sv sid")
    case None
    with assms ChatWithSpace show ?thesis by (simp add: chat_with_space_def)
  next
    case (Some session)
    with assms have "echo_pairs (cs_messages session)" by blast
    then have "echo_pairs (cs_messages session @
        [\<lparr>role = ''user'', content = msg, timestamp = t1\<rparr>,
         \<lparr>role = ''assistant'', content = ''Echo: '' @ msg, timestamp = t2\<rparr>])"
      by (rule echo_pairs_append) simp
    with assms ChatWithSpace Some show ?thesis
      by (auto simp: chat_with_space_def Let_def)
  qed
next
  case (GetChatHistory sid)
  with assms show ?thesis by (simp add: get_chat_history_def split: option.splits)
next
  case (DeleteSessionRequest sid)
  with assms show ?thesis
    by (auto simp: delete_session_endpoint_def split: option.splits if_splits)
qed

lemma serve_echo_pairs:
  "\<forall>sid s. chat_sessions sv sid = Some s \<longrightarrow> echo_pairs (cs_messages s) \<Longrightarrow>
   \<forall>sid s. chat_sessions (serve rqs sv) sid = Some s \<longrightarrow> echo_pairs (cs_messages s)"
proof (induction rqs arbitrary: sv)
  case Nil
  then show ?case by simp
next
  case (Cons rq rqs)
  from handle_echo_pairs [OF Cons.prems]
  have "\<forall>sid s. chat_sessions (serve rqs (snd (handle rq sv))) sid = Some s \<longrightarrow> echo_pairs (cs_messages s)"
    by (rule Cons.IH)
  then show ?case by simp
qed

text \<open>
  C9, as amended. In every state that the API reaches from its start by handling
  requests one after another, the history of every session has even length, its roles
  alternate \<open>user\<close>, \<open>assistant\<close> from the first message on, and every assistant
  message is \<open>Echo: \<close> followed by the content of the user message before it.
\<close>

theorem histories_alternate:
  assumes "chat_sessions (serve rqs (start_server db)) sid = Some s"
  shows "even (length (cs_messages s)) \<and>
         (\<forall>i < length (cs_messages s).
            role (cs_messages s ! i) = (if even i then ''user'' else ''assistant'')) \<and>
         (\<forall>i. 2 * i + 1 < length (cs_messages s) \<longrightarrow>
            content (cs_messages s ! (2 * i + 1)) = ''Echo: '' @ content (cs_messages s ! (2 * i)))"
proof -
  have "\<forall>sid s. chat_sessions (start_server db) sid = Some s \<longrightarrow> echo_pairs (cs_messages s)"
    by (simp add: start_server_def)
  from serve_echo_pairs [OF this] assms have "echo_pairs (cs_messages s)" by blast
  then show ?thesis
    using echo_pairs_even [of "cs_messages s"] echo_pairs_role [of "cs_messages s"]
      echo_pairs_content [of "cs_messages s"]
    by blast
qed

theorem histories_alternate_witness:
  "chat_sessions (serve [StartChat ''u1'' 1, ChatWithSpace ''u1'' ''hi'' 2 3 4]
      (start_server init_db)) ''u1'' =
     Some \<lparr>cs_created_at = 1,
           cs_messages = [\<lparr>role = ''user'', content = ''hi'', timestamp = 2\<rparr>,
                          \<lparr>role = ''assistant'', content = ''Echo: hi'', timestamp = 3\<rparr>]\<rparr> \<and>
   even (length [\<lparr>role = ''user'', content = ''hi'', timestamp = 2\<rparr>,
                 \<lparr>role = ''assistant'', content = ''Echo: hi'', timestamp = 3\<rparr>]) \<and>
   role ([\<lparr>role = ''user'', content = ''hi'', timestamp = 2\<rparr>,
          \<lparr>role = ''assistant'', content = ''Echo: hi'', timestamp = 3\<rparr>] ! 0) = ''user'' \<and>
   role ([\<lparr>role = ''user'', content = ''hi'', timestamp = 2\<rparr>,
          \<lparr>role = ''assistant'', content = ''Echo: hi'', timestamp = 3\<rparr>] ! 1) = ''assistant''"
proof -
  have h: "chat_sessions (serve [StartChat ''u1'' 1, ChatWithSpace ''u1'' ''hi'' 2 3 4]
      (start_server init_db)) ''u1'' =
     Some \<lparr>cs_created_at = 1,
           cs_messages = [\<lparr>role = ''user'', content = ''hi'', timestamp = 2\<rparr>,
                          \<lparr>role = ''assistant'', content = ''Echo: hi'', timestamp = 3\<rparr>]\<rparr>"
    by (simp add: chat_with_space_def start_chat_def start_server_def Let_def)
  from histories_alternate [OF h] h show ?thesis by simp
qed

text \<open>For an existing session \<open>chat_with_space\<close> returns: the reply is computed in
  place, and the state it leaves is that of its two appends.\<close>

lemma chat_with_space_existing:
  "chat_sessions sv sid = Some session \<Longrightarrow>
   chat_with_space sid msg t1 t2 t3 sv =
     (Inr (ChatResponse sid msg (''Echo: '' @ msg) t3),
      sv\<lparr>chat_sessions := (chat_sessions sv)(sid \<mapsto>
           session\<lparr>cs_messages := cs_messages session @
             [\<lparr>role = ''user'', content = msg, timestamp = t1\<rparr>,
              \<lparr>role = ''assistant'', content = ''Echo: '' @ msg, timestamp = t2\<rparr>]\<rparr>)\<rparr>)"
  by (simp add: chat_with_space_def Let_def)

lemma chat_with_space_steps:
  "chat_sessions sv sid = Some session \<Longrightarrow>
   snd (chat_with_space sid msg t1 t2 t3 sv) =
     thread_step sid (store_assistant_response msg t2)
       (thread_step sid (store_user_message msg t1) sv)"
  by (simp add: chat_with_space_existing thread_step_def store_user_message_def
        store_assistant_response_def Let_def)

text \<open>
  C9, as stated, fails. Two requests \<open>chat_with_space\<close> on the session \<open>u1\<close>, with
  the messages \<open>a\<close> and \<open>b\<close>, overlap: each thread appends its user message before
  either appends its reply. The history is then \<open>user\<close>, \<open>user\<close>, \<open>assistant\<close>,
  \<open>assistant\<close>; and after the first append alone it has length 1.
\<close>

theorem overlapping_requests_counterexample:
  "map_option cs_messages
     (chat_sessions
        (thread_step ''u1'' (store_assistant_response ''b'' 5)
          (thread_step ''u1'' (store_assistant_response ''a'' 4)
            (thread_step ''u1'' (store_user_message ''b'' 3)
              (thread_step ''u1'' (store_user_message ''a'' 2)
                (snd (start_chat ''u1'' 1 (start_server init_db))))))) ''u1'') =
     Some [\<lparr>role = ''user'', content = ''a'', timestamp = 2\<rparr>,
           \<lparr>role = ''user'', content = ''b'', timestamp = 3\<rparr>,
           \<lparr>role = ''assistant'', content = ''Echo: a'', timestamp = 4\<rparr>,
           \<lparr>role = ''assistant'', content = ''Echo: b'', timestamp = 5\<rparr>] \<and>
   map_option (\<lambda>s. length (cs_messages s))
     (chat_sessions
        (thread_step ''u1'' (store_user_message ''a'' 2)
          (snd (start_chat ''u1'' 1 (start_server init_db)))) ''u1'') = Some 1"
  by (simp add: thread_step_def store_user_message_def store_assistant_response_def
        start_chat_def start_server_def Let_def)

text \<open>
  C7, as amended. \<open>start_chat\<close> always succeeds: it binds the generated id in
  \<open>chat_sessions\<close> to a new session with an empty history, replacing a session that
  has this id already, and returns the id. It does not call \<open>create_session\<close> (the store
  is unchanged), retries nothing and raises nothing.
\<close>

theorem start_chat_overwrites:
  "start_chat uuid now sv =
     (Inr (StartChatResponse uuid
         ''Chat session created successfully. Use this session_id to send messages.'' now),
      sv\<lparr>chat_sessions := (chat_sessions sv)(uuid \<mapsto> \<lparr>cs_created_at = now, cs_messages = []\<rparr>)\<rparr>) \<and>
   store (snd (start_chat uuid now sv)) = store sv"
  by (simp add: start_chat_def)

text \<open>
  C7, as stated, fails. After \<open>start_chat\<close> the store has no session row for the id, so
  nothing was delegated to \<open>create_session\<close>; and when \<open>uuid4\<close> repeats an id in
  use, \<open>start_chat\<close> neither retries with a new id nor fails: it returns the same id
  and the history of the session is replaced by the empty one.
\<close>

theorem start_chat_no_create_session_counterexample:
  "\<not> session_exists (store (snd (start_chat ''u1'' 1 (start_server init_db)))) ''u1'' \<and>
   chat_sessions (snd (chat_with_space ''u1'' ''hi'' 2 3 4
       (snd (start_chat ''u1'' 1 (start_server init_db))))) ''u1'' =
     Some \<lparr>cs_created_at = 1,
           cs_messages = [\<lparr>role = ''user'', content = ''hi'', timestamp = 2\<rparr>,
                          \<lparr>role = ''assistant'', content = ''Echo: hi'', timestamp = 3\<rparr>]\<rparr> \<and>
   fst (start_chat ''u1'' 9 (snd (chat_with_space ''u1'' ''hi'' 2 3 4
       (snd (start_chat ''u1'' 1 (start_server init_db)))))) =
     Inr (StartChatResponse ''u1''
       ''Chat session created successfully. Use this session_id to send messages.'' 9) \<and>
   chat_sessions (snd (start_chat ''u1'' 9 (snd (chat_with_space ''u1'' ''hi'' 2 3 4
       (snd (start_chat ''u1'' 1 (start_server init_db))))))) ''u1'' =
     Some \<lparr>cs_created_at = 9, cs_messages = []\<rparr>"
  by (simp add: chat_with_space_def start_chat_def start_server_def init_db_def session_exists_def Let_def)

end
